theory Spec2Isabelle
  imports Main "HOL-Library.AList"
begin

section \<open>geoapy: a client of the ipgeolocation.io API, with a shelve cache\<close>

text \<open>
  A shallow embedding of \<^verbatim>\<open>geoapy.py\<close>. Python values are a datatype, an instance's
  \<^verbatim>\<open>__dict__\<close> and the shelve database are association lists in insertion order, every
  \<^verbatim>\<open>raise\<close> is the left injection of a sum, and the files, the shelve databases, the
  provider and the log of cache and network accesses are fields of an explicit world
  that each operation takes and returns.
\<close>

subsection \<open>Python values and exceptions\<close>

text \<open>
  The values that reach the module: JSON data (strings, integers, booleans, null, arrays,
  objects with string keys) and the \<^verbatim>\<open>pathlib.Path\<close> kept in \<^verbatim>\<open>currentfolder\<close>.
  A dictionary is an association list read with \<^const>\<open>map_of\<close>. JSON numbers with a fraction
  are not represented.
\<close>

datatype pyobj =
    Str string
  | Num int
  | Bool bool
  | NoneV
  | List "pyobj list"
  | Dict "(string \<times> pyobj) list"
  | Path string

text \<open>
  The four exception classes of the module, and the built-in and library exceptions that its
  code can let escape: \<^verbatim>\<open>TypeError\<close>, \<^verbatim>\<open>AttributeError\<close>, \<^verbatim>\<open>KeyError\<close>,
  \<^verbatim>\<open>ValueError\<close>, \<^verbatim>\<open>dbm.error\<close> (a shelve that cannot be opened),
  a \<^verbatim>\<open>requests\<close> transport failure and a body that is not JSON.
\<close>

datatype exn =
    KeyNotFound
  | IncorrectIpFormat string
  | FieldDoesNotExist string
  | RequestError pyobj string
  | TypeError
  | AttributeError
  | KeyError string
  | ValueError
  | DbmError
  | RequestException
  | JSONDecodeError

text \<open>Truth value testing, as \<^verbatim>\<open>if value:\<close> does it.\<close>

fun truthy :: "pyobj \<Rightarrow> bool" where
  "truthy (Str s) = (s \<noteq> [])"
| "truthy (Num n) = (n \<noteq> 0)"
| "truthy (Bool b) = b"
| "truthy NoneV = False"
| "truthy (List xs) = (xs \<noteq> [])"
| "truthy (Dict d) = (d \<noteq> [])"
| "truthy (Path p) = True"

text \<open>\<^verbatim>\<open>sub in s\<close> on two strings: \<^verbatim>\<open>sub\<close> occurs in \<^verbatim>\<open>s\<close> as a contiguous run.\<close>

fun starts_with :: "string \<Rightarrow> string \<Rightarrow> bool" where
  "starts_with [] s = True"
| "starts_with (c # cs) [] = False"
| "starts_with (c # cs) (x # xs) = (c = x \<and> starts_with cs xs)"

fun str_contains :: "string \<Rightarrow> string \<Rightarrow> bool" where
  "str_contains sub [] = (sub = [])"
| "str_contains sub (x # xs) = (starts_with sub (x # xs) \<or> str_contains sub xs)"

text \<open>
  \<^verbatim>\<open>key in obj\<close> for a string key: membership among the keys of a dictionary, substring
  test on a string, element test on a list, \<^verbatim>\<open>TypeError\<close> on a value that is not a
  container.
\<close>

fun py_in :: "string \<Rightarrow> pyobj \<Rightarrow> exn + bool" where
  "py_in k (Dict d) = Inr (k \<in> set (map fst d))"
| "py_in k (Str s) = Inr (str_contains k s)"
| "py_in k (List xs) = Inr (Str k \<in> set xs)"
| "py_in k (Num n) = Inl TypeError"
| "py_in k (Bool b) = Inl TypeError"
| "py_in k NoneV = Inl TypeError"
| "py_in k (Path p) = Inl TypeError"

text \<open>
  \<^verbatim>\<open>obj[key]\<close> for a string key: the value of a dictionary (\<^verbatim>\<open>KeyError\<close> when the key is
  missing), \<^verbatim>\<open>TypeError\<close> on everything else (a string or a list is indexed by integers).
\<close>

fun py_getitem :: "pyobj \<Rightarrow> string \<Rightarrow> exn + pyobj" where
  "py_getitem (Dict d) k = (case map_of d k of Some v \<Rightarrow> Inr v | None \<Rightarrow> Inl (KeyError k))"
| "py_getitem (Str s) k = Inl TypeError"
| "py_getitem (List xs) k = Inl TypeError"
| "py_getitem (Num n) k = Inl TypeError"
| "py_getitem (Bool b) k = Inl TypeError"
| "py_getitem NoneV k = Inl TypeError"
| "py_getitem (Path p) k = Inl TypeError"

subsection \<open>Module constants\<close>

definition KEY_FILE :: string where
  "KEY_FILE = ''key.txt''"

definition URL :: string where
  "URL = ''https://api.ipgeolocation.io/ipgeo?''"

definition API_PARAM :: string where
  "API_PARAM = ''apiKey''"

definition FIELDS :: "string list" where
  "FIELDS =
    [''domain'',
     ''ip'',
     ''hostname'',
     ''continent_code'',
     ''continent_name'',
     ''country_code2'',
     ''country_code3'',
     ''country_name'',
     ''country_capital'',
     ''state_prov'',
     ''district'',
     ''city'',
     ''zipcode'',
     ''latitude'',
     ''longitude'',
     ''is_eu'',
     ''calling_code'',
     ''country_tld'',
     ''languages'',
     ''country_flag'',
     ''geoname_id'',
     ''isp'',
     ''connection_type'',
     ''organization'',
     ''asn'',
     ''currency'',
     ''time_zone'']"

definition CACHE_FILE :: string where
  "CACHE_FILE = ''cache''"

subsection \<open>The Response class\<close>

text \<open>
  An instance is its \<^verbatim>\<open>__dict__\<close>: the attributes in the order they were first set.
  \<^verbatim>\<open>__setattr__\<close> is \<^const>\<open>AList.update\<close>; \<^verbatim>\<open>__getattribute__\<close> raises
  \<^verbatim>\<open>AttributeError\<close> on a name that was never set.
\<close>

type_synonym response = "(string \<times> pyobj) list"

definition setattr :: "response \<Rightarrow> string \<Rightarrow> pyobj \<Rightarrow> response" where
  "setattr self name v = AList.update name v self"

definition getattribute :: "response \<Rightarrow> string \<Rightarrow> exn + pyobj" where
  "getattribute self name =
     (case map_of self name of Some v \<Rightarrow> Inr v | None \<Rightarrow> Inl AttributeError)"

text \<open>
  The loop of \<^verbatim>\<open>__init__\<close> over the catalog. \<^verbatim>\<open>attributes\<close> is annotated as a dict but
  is whatever the caller passes, so the membership test and the subscript are those of the
  value's own type.
\<close>

fun init_fields :: "pyobj \<Rightarrow> string list \<Rightarrow> response \<Rightarrow> exn + response" where
  "init_fields attributes [] self = Inr self"
| "init_fields attributes (field # rest) self =
     (case py_in field attributes of
        Inl e \<Rightarrow> Inl e
      | Inr True \<Rightarrow>
          (case py_getitem attributes field of
             Inl e \<Rightarrow> Inl e
           | Inr v \<Rightarrow> init_fields attributes rest (setattr self field v))
      | Inr False \<Rightarrow> init_fields attributes rest (setattr self field (Str '''')))"

text \<open>
  \<^verbatim>\<open>Response(attributes)\<close>. The first argument is the directory of the module,
  \<^verbatim>\<open>Path(__file__).parent\<close>, which the constructor stores in \<^verbatim>\<open>currentfolder\<close>
  after the loop.
\<close>

definition Response_init :: "string \<Rightarrow> pyobj \<Rightarrow> exn + response" where
  "Response_init here attributes =
     (case init_fields attributes FIELDS [] of
        Inl e \<Rightarrow> Inl e
      | Inr self \<Rightarrow> Inr (setattr self ''currentfolder'' (Path here)))"

subsection \<open>The world outside the module\<close>

text \<open>
  \<^verbatim>\<open>here\<close> is the directory of the module (\<^verbatim>\<open>Path(__file__).parent\<close>), \<^verbatim>\<open>files\<close> the
  text files by path, \<^verbatim>\<open>shelves\<close> the shelve databases by path (no entry: the database
  does not exist), \<^verbatim>\<open>provider\<close> what \<^verbatim>\<open>requests.get\<close> gives for a URL
  (\<^const>\<open>None\<close>: the transport raised), and \<^verbatim>\<open>trace\<close> the log of the accesses to the
  cache store and to the network, oldest first.
\<close>

record http_response =
  status_code :: int
  json :: "pyobj option"

datatype event = ShelveOpen string char | HttpGet string

type_synonym shelf = "(string \<times> pyobj) list"

record world =
  here :: string
  files :: "string \<rightharpoonup> string"
  shelves :: "string \<rightharpoonup> shelf"
  provider :: "string \<Rightarrow> http_response option"
  trace :: "event list"

definition joinpath :: "string \<Rightarrow> string \<Rightarrow> string" where
  "joinpath folder name = folder @ ''/'' @ name"

text \<open>
  \<^verbatim>\<open>shelve.open(path, flag)\<close>: \<^verbatim>\<open>'c'\<close> creates the database when it does not exist,
  \<^verbatim>\<open>'n'\<close> always starts an empty one, and the other flags (\<^verbatim>\<open>'r'\<close>, \<^verbatim>\<open>'w'\<close>) need an
  existing database and raise \<^verbatim>\<open>dbm.error\<close> without one. Every attempt is logged.
\<close>

definition shelve_open :: "string \<Rightarrow> char \<Rightarrow> world \<Rightarrow> (exn + shelf) \<times> world" where
  "shelve_open path flag w =
     (let w1 = w\<lparr>trace := trace w @ [ShelveOpen path flag]\<rparr> in
      if flag = CHR ''n'' then (Inr [], w1\<lparr>shelves := (shelves w)(path \<mapsto> [])\<rparr>)
      else case shelves w path of
             Some db \<Rightarrow> (Inr db, w1)
           | None \<Rightarrow>
               if flag = CHR ''c'' then (Inr [], w1\<lparr>shelves := (shelves w)(path \<mapsto> [])\<rparr>)
               else (Inl DbmError, w1))"

text \<open>Leaving the \<^verbatim>\<open>with\<close> block closes the shelf, which writes it back.\<close>

definition shelve_close :: "string \<Rightarrow> shelf \<Rightarrow> world \<Rightarrow> world" where
  "shelve_close path db w = w\<lparr>shelves := (shelves w)(path \<mapsto> db)\<rparr>"

text \<open>\<^verbatim>\<open>db.get(key)\<close>: the stored value, \<^verbatim>\<open>None\<close> for a key that is not there.\<close>

definition shelf_get :: "shelf \<Rightarrow> string \<Rightarrow> pyobj" where
  "shelf_get db key = (case map_of db key of Some v \<Rightarrow> v | None \<Rightarrow> NoneV)"

text \<open>
  \<^verbatim>\<open>db[key] = value\<close> and \<^verbatim>\<open>del db[key]\<close>. A shelf encodes its key with
  \<^verbatim>\<open>key.encode\<close>, so a key that is not a string raises \<^verbatim>\<open>AttributeError\<close>; deleting a key
  that is not there raises \<^verbatim>\<open>KeyError\<close>.
\<close>

definition shelf_setitem :: "shelf \<Rightarrow> pyobj \<Rightarrow> pyobj \<Rightarrow> exn + shelf" where
  "shelf_setitem db key v =
     (case key of Str k \<Rightarrow> Inr (AList.update k v db) | _ \<Rightarrow> Inl AttributeError)"

definition shelf_delitem :: "shelf \<Rightarrow> pyobj \<Rightarrow> exn + shelf" where
  "shelf_delitem db key =
     (case key of
        Str k \<Rightarrow> if k \<in> set (map fst db) then Inr (AList.delete k db) else Inl (KeyError k)
      | _ \<Rightarrow> Inl AttributeError)"

subsection \<open>Persistence of a Response\<close>

text \<open>
  The path of the store, \<^verbatim>\<open>self.currentfolder.joinpath(_CACHE_FILE)\<close>; an attribute that is
  not a path has no \<^verbatim>\<open>joinpath\<close>.
\<close>

definition cache_path :: "response \<Rightarrow> exn + string" where
  "cache_path self =
     (case getattribute self ''currentfolder'' of
        Inl e \<Rightarrow> Inl e
      | Inr (Path p) \<Rightarrow> Inr (joinpath p CACHE_FILE)
      | Inr _ \<Rightarrow> Inl AttributeError)"

definition cache :: "response \<Rightarrow> world \<Rightarrow> (exn + unit) \<times> world" where
  "cache self w =
     (case getattribute self ''ip'' of
        Inl e \<Rightarrow> (Inl e, w)
      | Inr ip \<Rightarrow>
          (case cache_path self of
             Inl e \<Rightarrow> (Inl e, w)
           | Inr path \<Rightarrow>
               (case shelve_open path (CHR ''w'') w of
                  (Inl e, w1) \<Rightarrow> (Inl e, w1)
                | (Inr db, w1) \<Rightarrow>
                    (case shelf_setitem db ip (Dict self) of
                       Inl e \<Rightarrow> (Inl e, shelve_close path db w1)
                     | Inr db' \<Rightarrow> (Inr (), shelve_close path db' w1)))))"

definition uncache :: "response \<Rightarrow> world \<Rightarrow> (exn + unit) \<times> world" where
  "uncache self w =
     (case getattribute self ''ip'' of
        Inl e \<Rightarrow> (Inl e, w)
      | Inr ip \<Rightarrow>
          (case cache_path self of
             Inl e \<Rightarrow> (Inl e, w)
           | Inr path \<Rightarrow>
               (case shelve_open path (CHR ''w'') w of
                  (Inl e, w1) \<Rightarrow> (Inl e, w1)
                | (Inr db, w1) \<Rightarrow>
                    (let v = shelf_get db ''ip'' in
                     if truthy v then
                       (case shelf_delitem db ip of
                          Inl e \<Rightarrow> (Inl e, shelve_close path db w1)
                        | Inr db' \<Rightarrow> (Inr (), shelve_close path db' w1))
                     else (Inr (), shelve_close path db w1)))))"

text \<open>
  The class method: the shelf is read and closed, then a hit builds \<^verbatim>\<open>cls(ip)\<close>, the
  constructor applied to the string \<^verbatim>\<open>ip\<close>.
\<close>

definition retreivefromcache :: "string \<Rightarrow> world \<Rightarrow> (exn + response option) \<times> world" where
  "retreivefromcache ip w =
     (let currentfolder = here w; path = joinpath currentfolder CACHE_FILE in
      case shelve_open path (CHR ''c'') w of
        (Inl e, w1) \<Rightarrow> (Inl e, w1)
      | (Inr db, w1) \<Rightarrow>
          (let v = shelf_get db ip; w2 = shelve_close path db w1 in
           if truthy v then
             (case Response_init (here w) (Str ip) of
                Inl e \<Rightarrow> (Inl e, w2)
              | Inr r \<Rightarrow> (Inr (Some r), w2))
           else (Inr None, w2)))"

subsection \<open>The API key\<close>

definition registerkey :: "string \<Rightarrow> world \<Rightarrow> world" where
  "registerkey keystring w =
     w\<lparr>files := (files w)(joinpath (here w) KEY_FILE \<mapsto> keystring)\<rparr>"

definition getkey :: "world \<Rightarrow> exn + string" where
  "getkey w =
     (case files w (joinpath (here w) KEY_FILE) of
        Some key \<Rightarrow> Inr key
      | None \<Rightarrow> Inl KeyNotFound)"

definition listfields :: "string list" where
  "listfields = FIELDS"

subsection \<open>Validation of the arguments\<close>

text \<open>
  The pattern of \<^verbatim>\<open>checkipformat\<close> uses a literal character, a character range, \<^verbatim>\<open>?\<close>,
  a bounded repetition and sequencing. \<^verbatim>\<open>rx_rems r s\<close> lists what can be left of
  \<^verbatim>\<open>s\<close> after \<^verbatim>\<open>r\<close> has matched a prefix of it, in every way there is.
\<close>

datatype rx =
    Lit char
  | Range char char
  | Opt rx
  | Rep rx nat nat
  | Cat rx rx

definition in_range :: "char \<Rightarrow> char \<Rightarrow> char \<Rightarrow> bool" where
  "in_range lo hi c = ((of_char lo :: nat) \<le> of_char c \<and> (of_char c :: nat) \<le> of_char hi)"

fun rep_rems :: "(string \<Rightarrow> string list) \<Rightarrow> nat \<Rightarrow> nat \<Rightarrow> string \<Rightarrow> string list" where
  "rep_rems f lo 0 s = (if lo = 0 then [s] else [])"
| "rep_rems f lo (Suc hi) s =
     concat (map (rep_rems f (lo - 1) hi) (f s)) @ (if lo = 0 then [s] else [])"

primrec rx_rems :: "rx \<Rightarrow> string \<Rightarrow> string list" where
  "rx_rems (Lit c) = (\<lambda>s. case s of [] \<Rightarrow> [] | x # xs \<Rightarrow> if x = c then [xs] else [])"
| "rx_rems (Range lo hi) =
     (\<lambda>s. case s of [] \<Rightarrow> [] | x # xs \<Rightarrow> if in_range lo hi x then [xs] else [])"
| "rx_rems (Opt r) = (\<lambda>s. rx_rems r s @ [s])"
| "rx_rems (Rep r lo hi) = rep_rems (rx_rems r) lo hi"
| "rx_rems (Cat r1 r2) = (\<lambda>s. concat (map (rx_rems r2) (rx_rems r1 s)))"

text \<open>
  \<^verbatim>\<open>re.compile('^' + r + '$').match(s)\<close>: the match starts at the beginning of the string,
  and \<^verbatim>\<open>$\<close> holds at the end of the string and also just before a newline that is the
  last character of the string.
\<close>

definition re_match :: "rx \<Rightarrow> string \<Rightarrow> bool" where
  "re_match r s = (\<exists>t \<in> set (rx_rems r s). t = [] \<or> t = ''\<newline>'')"

text \<open>One segment, \<^verbatim>\<open>[0-2]?[0-9]{1,2}\<close>, and the four of them with \<^verbatim>\<open>\.\<close> between.\<close>

definition segment :: rx where
  "segment = Cat (Opt (Range (CHR ''0'') (CHR ''2''))) (Rep (Range (CHR ''0'') (CHR ''9'')) 1 2)"

definition ipv4 :: rx where
  "ipv4 =
     Cat segment (Cat (Lit (CHR ''.''))
    (Cat segment (Cat (Lit (CHR ''.''))
    (Cat segment (Cat (Lit (CHR ''.''))
     segment)))))"

text \<open>\<^verbatim>\<open>re.compile('\.').split(ip)\<close>: the pieces between the dots, empty ones kept.\<close>

fun split_on :: "char \<Rightarrow> string \<Rightarrow> string list" where
  "split_on c [] = [[]]"
| "split_on c (x # xs) =
     (if x = c then [] # split_on c xs
      else case split_on c xs of [] \<Rightarrow> [[x]] | y # ys \<Rightarrow> (x # y) # ys)"

text \<open>
  \<^verbatim>\<open>int(s)\<close> on a string: surrounding whitespace is dropped, and what is left must be
  decimal digits, or \<^verbatim>\<open>ValueError\<close> is raised. (A sign and underscores between digits,
  which \<^verbatim>\<open>int\<close> also reads, are not modelled: no string with them passes the pattern.)
\<close>

definition is_space :: "char \<Rightarrow> bool" where
  "is_space c = (c \<in> set [CHR '' '', CHR 0x09, CHR 0x0A, CHR 0x0B, CHR 0x0C, CHR 0x0D])"

definition strip :: "string \<Rightarrow> string" where
  "strip s = rev (dropWhile is_space (rev (dropWhile is_space s)))"

definition is_digit :: "char \<Rightarrow> bool" where
  "is_digit c = in_range (CHR ''0'') (CHR ''9'') c"

definition digit_val :: "char \<Rightarrow> int" where
  "digit_val c = int (of_char c) - 48"

definition py_int :: "string \<Rightarrow> exn + int" where
  "py_int s =
     (let t = strip s in
      if t \<noteq> [] \<and> list_all is_digit t then Inr (foldl (\<lambda>a c. 10 * a + digit_val c) 0 t)
      else Inl ValueError)"

text \<open>\<^verbatim>\<open>map(int, chunks)\<close>, consumed by \<^verbatim>\<open>filter\<close> and \<^verbatim>\<open>list\<close>: the first failure escapes.\<close>

fun map_int :: "string list \<Rightarrow> exn + int list" where
  "map_int [] = Inr []"
| "map_int (s # ss) =
     (case py_int s of
        Inl e \<Rightarrow> Inl e
      | Inr v \<Rightarrow> (case map_int ss of Inl e \<Rightarrow> Inl e | Inr vs \<Rightarrow> Inr (v # vs)))"

definition checkipformat :: "string \<Rightarrow> exn + unit" where
  "checkipformat ip =
     (if re_match ipv4 ip then
        (let ipv4_chunks = split_on (CHR ''.'') ip in
         case map_int ipv4_chunks of
           Inl e \<Rightarrow> Inl e
         | Inr values \<Rightarrow>
             (let valid_values = filter (\<lambda>v. v < 256) values in
              if length valid_values = 4 then Inr ()
              else Inl (IncorrectIpFormat ''ipv4'')))
      else Inl (IncorrectIpFormat ''ipv4''))"

text \<open>
  \<^verbatim>\<open>str.lower\<close> on the ASCII letters and \<^verbatim>\<open>str.join\<close>. (\<^verbatim>\<open>lower\<close> also maps letters
  beyond ASCII, which are not modelled: \<^verbatim>\<open>formatfields\<close> lower-cases only names it has
  found in the catalog.)
\<close>

definition lower_char :: "char \<Rightarrow> char" where
  "lower_char c =
     (case map_of (zip ''ABCDEFGHIJKLMNOPQRSTUVWXYZ'' ''abcdefghijklmnopqrstuvwxyz'') c of
        Some l \<Rightarrow> l
      | None \<Rightarrow> c)"

definition lower :: "string \<Rightarrow> string" where
  "lower s = map lower_char s"

fun join :: "string \<Rightarrow> string list \<Rightarrow> string" where
  "join sep [] = []"
| "join sep [x] = x"
| "join sep (x # y # zs) = x @ sep @ join sep (y # zs)"

text \<open>The validating loop of \<^verbatim>\<open>formatfields\<close>, then the function itself.\<close>

fun check_fields :: "string list \<Rightarrow> exn + unit" where
  "check_fields [] = Inr ()"
| "check_fields (field # rest) =
     (if field \<notin> set FIELDS then Inl (FieldDoesNotExist field) else check_fields rest)"

definition formatfields :: "string list \<Rightarrow> exn + string" where
  "formatfields fields' =
     (case check_fields fields' of
        Inl e \<Rightarrow> Inl e
      | Inr _ \<Rightarrow> Inr (join '','' (map lower fields')))"

subsection \<open>The request\<close>

definition nl :: string where
  "nl = [CHR 0x0A]"

definition tab :: string where
  "tab = [CHR 0x09]"

definition dq :: string where
  "dq = [CHR 0x22]"

text \<open>
  The explanations of the status codes, one line of the definition for each literal of the
  source (adjacent literals are concatenated as they stand). The apostrophe of the text for
  401 is U+2019, here in UTF-8.
\<close>

definition text_401 :: string where
  "text_401 =
     ''It is returned for one of the following reasons:'' @ nl @
     tab @ ''(1) If API key (as '' @ dq @ ''apiKey'' @ dq @ '' URL parameter) is missing from the request to'' @
     ''IP Geolocation API.'' @ nl @ tab @ ''(2) If an invalid (a random value) API key is provided.'' @ nl @ tab @
     ''(3) If the API request is made from an unverified ipgeolocation.io'' @
     '' account.'' @ nl @ tab @
     ''(4) If your account has been disabled or locked to use by the admin due to'' @
     '' abuse or illegal activity.'' @ nl @ tab @ ''(5) When the request to IP Geolocation API is'' @
     ''made using API key for a database subscription.'' @ nl @ tab @ ''(6) When the request to IP'' @
     '' Geolocation API is made on the '' @ dq @ ''paused'' @ dq @ '' subscription.'' @ nl @ tab @ ''(7) If you'' @ [CHR 0xE2, CHR 0x80, CHR 0x99] @ ''re making'' @
     '' API requests after your subscription trial has been expired.'' @ nl @ tab @ ''(8) If your '' @
     ''active until date has passed and you need to upgrade your account.'' @ nl @ tab @ ''(9) If'' @
     '' bulk IP to geolocation look-ups endpoint is called using free subscription'' @
     '' API key.'' @ nl @ tab @ ''(10) If user-agent lookup using custom string or bulk user-agent'' @
     '' look-ups endpoints are called using free subscription API key.'' @ nl @ tab @
     ''(11) When the wrong input is provided in the request to any endpoint of IP'' @
     '' Geolocation API.''"

definition text_403 :: string where
  "text_403 =
     ''It is returned for one of the following reasons:'' @ nl @ tab @ ''(1) If IP to geolocation'' @
     '' look-up for a domain name is done using a free subscription API key.''"

definition text_404 :: string where
  "text_404 =
     ''It is returned for one of the following reasons:'' @ nl @ tab @ ''(1) If the queried IP'' @
     '' address or domain name is not found in our database.''"

definition text_423 :: string where
  "text_423 =
     ''If the queried IP address is a [bogon]() (bogus IP address from the bogon'' @
     '' space) IP address.''"

definition text_429 :: string where
  "text_429 =
     ''It is returned for one of the following reasons:'' @ nl @ tab @ ''(1) If the API usage '' @
     ''limit has reached for the free subscriptions, or paid subscriptions with'' @
     '' the status '' @ dq @ ''past due'' @ dq @ '', '' @ dq @ ''deleted'' @ dq @ '' or '' @ dq @ ''trial expired'' @ dq @ ''.'' @ nl @ tab @ ''(2) If the surcharge'' @
     '' API usage limit has reached against the subscribed plan.''"


text \<open>
  The first part of \<^verbatim>\<open>get\<close>, up to the query string: the key, the cache, the validation
  of \<^verbatim>\<open>ip\<close>, \<^verbatim>\<open>fields\<close> and \<^verbatim>\<open>excluded_fields\<close>. It ends with an exception, with the
  cached value that \<^verbatim>\<open>get\<close> returns at once (\<^verbatim>\<open>Inr (Inl value)\<close>), or with the query
  string to send (\<^verbatim>\<open>Inr (Inr query_str)\<close>). An argument left at \<^verbatim>\<open>None\<close> is
  \<^const>\<open>None\<close>; \<^verbatim>\<open>if ip:\<close> and \<^verbatim>\<open>if fields:\<close> also skip the empty string and list.
\<close>

definition given :: "'a list option \<Rightarrow> bool" where
  "given x = (case x of None \<Rightarrow> False | Some v \<Rightarrow> v \<noteq> [])"

definition add_fields :: "string \<Rightarrow> string list option \<Rightarrow> string \<Rightarrow> exn + string" where
  "add_fields param fields' query_str =
     (if given fields' then
        (case formatfields (the fields') of
           Inl e \<Rightarrow> Inl e
         | Inr formatted \<Rightarrow> Inr (query_str @ param @ formatted))
      else Inr query_str)"

definition add_ip :: "string option \<Rightarrow> string \<Rightarrow> exn + string" where
  "add_ip ip query_str =
     (if given ip then
        (case checkipformat (the ip) of
           Inl e \<Rightarrow> Inl e
         | Inr _ \<Rightarrow> Inr (query_str @ ''&ip='' @ the ip))
      else Inr query_str)"

definition build_query ::
  "string option \<Rightarrow> string list option \<Rightarrow> string list option \<Rightarrow> string \<Rightarrow> exn + string" where
  "build_query ip fields' excluded_fields query_str =
     (case add_ip ip query_str of
        Inl e \<Rightarrow> Inl e
      | Inr q1 \<Rightarrow>
          (case add_fields ''&fields='' fields' q1 of
             Inl e \<Rightarrow> Inl e
           | Inr q2 \<Rightarrow> add_fields ''&excludes='' excluded_fields q2))"

definition get_request ::
  "string option \<Rightarrow> string list option \<Rightarrow> string list option \<Rightarrow> bool \<Rightarrow> world
     \<Rightarrow> (exn + response + string) \<times> world" where
  "get_request ip fields' excluded_fields cache_search w =
     (case getkey w of
        Inl e \<Rightarrow> (Inl e, w)
      | Inr key \<Rightarrow>
          (let query_str = API_PARAM @ ''='' @ key in
           if cache_search \<and> given ip then
             (case retreivefromcache (the ip) w of
                (Inl e, w1) \<Rightarrow> (Inl e, w1)
              | (Inr (Some v), w1) \<Rightarrow> (Inr (Inl v), w1)
              | (Inr None, w1) \<Rightarrow>
                  (case build_query ip fields' excluded_fields query_str of
                     Inl e \<Rightarrow> (Inl e, w1)
                   | Inr q \<Rightarrow> (Inr (Inr q), w1)))
           else
             (case build_query ip fields' excluded_fields query_str of
                Inl e \<Rightarrow> (Inl e, w)
              | Inr q \<Rightarrow> (Inr (Inr q), w))))"

text \<open>The last part of \<^verbatim>\<open>get\<close>: the chain over \<^verbatim>\<open>r.status_code\<close>.\<close>

definition get_response :: "string \<Rightarrow> http_response \<Rightarrow> exn + response" where
  "get_response folder r =
     (if status_code r = 200 then
        (case json r of None \<Rightarrow> Inl JSONDecodeError | Some body \<Rightarrow> Response_init folder body)
      else if status_code r = 401 then Inl (RequestError (Num (status_code r)) text_401)
      else if status_code r = 403 then Inl (RequestError (Num (status_code r)) text_403)
      else if status_code r = 404 then Inl (RequestError (Num (status_code r)) text_404)
      else if status_code r = 423 then Inl (RequestError (Num (status_code r)) text_423)
      else if status_code r = 429 then Inl (RequestError (Num (status_code r)) text_429)
      else Inl (RequestError (Str ''Unknown'') ''Unknown''))"

text \<open>
  \<^verbatim>\<open>get\<close>: the first part, then \<^verbatim>\<open>requests.get(__URL + query_str)\<close>, logged, then the chain
  over the status.
\<close>

definition get ::
  "string option \<Rightarrow> string list option \<Rightarrow> string list option \<Rightarrow> bool \<Rightarrow> world
     \<Rightarrow> (exn + response) \<times> world" where
  "get ip fields' excluded_fields cache_search w =
     (case get_request ip fields' excluded_fields cache_search w of
        (Inl e, w1) \<Rightarrow> (Inl e, w1)
      | (Inr (Inl v), w1) \<Rightarrow> (Inr v, w1)
      | (Inr (Inr query_str), w1) \<Rightarrow>
          (let w2 = w1\<lparr>trace := trace w1 @ [HttpGet (URL @ query_str)]\<rparr> in
           case provider w1 (URL @ query_str) of
             None \<Rightarrow> (Inl RequestException, w2)
           | Some r \<Rightarrow> (get_response (here w1) r, w2)))"

subsection \<open>Concrete inputs\<close>

text \<open>
  A world whose module lives in \<^verbatim>\<open>/lib\<close>: the key file holds \<^verbatim>\<open>key\<close> (or is missing),
  the cache store holds \<^verbatim>\<open>store\<close> (or does not exist), the provider answers every URL with
  \<^verbatim>\<open>answer\<close>, and nothing has been logged yet.
\<close>

definition mk_world :: "string option \<Rightarrow> shelf option \<Rightarrow> http_response option \<Rightarrow> world" where
  "mk_world key store answer =
     \<lparr>here = ''/lib'',
      files = (\<lambda>p. if p = ''/lib/key.txt'' then key else None),
      shelves = (\<lambda>p. if p = ''/lib/cache'' then store else None),
      provider = (\<lambda>u. answer),
      trace = []\<rparr>"

text \<open>The names of the attributes of a constructed instance (none when the constructor raised).\<close>

definition attribute_names :: "exn + response \<Rightarrow> string list" where
  "attribute_names res = (case res of Inl e \<Rightarrow> [] | Inr self \<Rightarrow> map fst self)"

text \<open>The entries of the shelve at a path; a database that does not exist has none.\<close>

definition store_entries :: "world \<Rightarrow> string \<Rightarrow> shelf" where
  "store_entries w path = (case shelves w path of None \<Rightarrow> [] | Some db \<Rightarrow> db)"

text \<open>An attribute of what a call returned (the exception when it raised).\<close>

definition result_attr :: "exn + response \<Rightarrow> string \<Rightarrow> exn + pyobj" where
  "result_attr res name = (case res of Inl e \<Rightarrow> Inl e | Inr self \<Rightarrow> getattribute self name)"

text \<open>A payload for the address 1.2.3.4 and the instance that the constructor builds from it.\<close>

definition payload_1234 :: pyobj where
  "payload_1234 = Dict [(''ip'', Str ''1.2.3.4''), (''city'', Str ''Madrid'')]"

definition record_1234 :: response where
  "record_1234 = (case Response_init ''/lib'' payload_1234 of Inl e \<Rightarrow> [] | Inr self \<Rightarrow> self)"

subsection \<open>The accepted addresses, in the words of the specification\<close>

text \<open>
  The numeric value of a string of decimal digits; a segment as the specification describes
  it (one to three digits, a segment of three digits beginning with 0, 1 or 2); and a dotted
  quad: four segments between dots, each with a value below 256. These follow the
  specification, to be compared with \<^const>\<open>checkipformat\<close>.
\<close>

definition decimal :: "string \<Rightarrow> int" where
  "decimal s = foldl (\<lambda>a c. 10 * a + digit_val c) 0 s"

definition spec_segment :: "string \<Rightarrow> bool" where
  "spec_segment s =
     (1 \<le> length s \<and> length s \<le> 3 \<and> list_all is_digit s
      \<and> (length s = 3 \<longrightarrow> in_range (CHR ''0'') (CHR ''2'') (hd s)))"

definition spec_dotted_quad :: "string \<Rightarrow> bool" where
  "spec_dotted_quad ip =
     (let segments = split_on (CHR ''.'') ip in
      length segments = 4 \<and> list_all (\<lambda>s. spec_segment s \<and> decimal s < 256) segments)"

section \<open>Properties\<close>

subsection \<open>Auxiliary facts\<close>

lemma key_path: "joinpath ''/lib'' KEY_FILE = ''/lib/key.txt''"
  by (simp add: joinpath_def KEY_FILE_def)

lemma store_path: "joinpath ''/lib'' CACHE_FILE = ''/lib/cache''"
  by (simp add: joinpath_def CACHE_FILE_def)

lemma distinct_FIELDS: "distinct FIELDS"
  by (simp add: FIELDS_def)

lemma currentfolder_not_field: "''currentfolder'' \<notin> set FIELDS"
  by (simp add: FIELDS_def)

lemma in_keys_iff: "k \<in> fst ` set d \<longleftrightarrow> map_of d k \<noteq> None"
  by (simp add: map_of_eq_None_iff)

lemma setattr_keys:
  "k \<notin> fst ` set self \<Longrightarrow> map fst (setattr self k v) = map fst self @ [k]"
  by (simp add: setattr_def update_keys)

lemma getattribute_setattr:
  "getattribute (setattr self k v) k' = (if k' = k then Inr v else getattribute self k')"
  by (simp add: getattribute_def setattr_def update_conv')

text \<open>On a dictionary the loop of the constructor never raises: it is a fold of \<^const>\<open>setattr\<close>.\<close>

lemma init_fields_Dict:
  "init_fields (Dict d) fs self =
     Inr (fold (\<lambda>f s. setattr s f (case map_of d f of Some v \<Rightarrow> v | None \<Rightarrow> Str '''')) fs self)"
proof (induction fs arbitrary: self)
  case Nil
  then show ?case by simp
next
  case (Cons a fs)
  show ?case
  proof (cases "map_of d a")
    case None
    then have "a \<notin> fst ` set d" by (simp add: map_of_eq_None_iff)
    with None Cons.IH show ?thesis by simp
  next
    case (Some v)
    then have "a \<in> fst ` set d" by (metis in_keys_iff option.distinct(1))
    with Some Cons.IH show ?thesis by simp
  qed
qed

lemma fold_setattr_lookup:
  "map_of (fold (\<lambda>f s. setattr s f (g f)) fs self) k =
     (if k \<in> set fs then Some (g k) else map_of self k)"
  by (induction fs arbitrary: self) (auto simp: setattr_def update_conv')

lemma fold_setattr_keys:
  "distinct fs \<Longrightarrow> set fs \<inter> set (map fst self) = {} \<Longrightarrow>
     map fst (fold (\<lambda>f s. setattr s f (g f)) fs self) = map fst self @ fs"
proof (induction fs arbitrary: self)
  case Nil
  then show ?case by simp
next
  case (Cons a fs)
  have "set fs \<inter> set (map fst (setattr self a (g a))) = {}"
    using Cons.prems by (auto simp: setattr_def dom_update)
  with Cons.IH [of "setattr self a (g a)"] Cons.prems show ?case
    by (auto simp: setattr_def update_keys)
qed

lemma mk_world_sel:
  "here (mk_world key store answer) = ''/lib''"
  "files (mk_world key store answer) = (\<lambda>p. if p = ''/lib/key.txt'' then key else None)"
  "shelves (mk_world key store answer) = (\<lambda>p. if p = ''/lib/cache'' then store else None)"
  "provider (mk_world key store answer) = (\<lambda>u. answer)"
  "trace (mk_world key store answer) = []"
  by (simp_all add: mk_world_def)

text \<open>Lower-casing leaves a string without capital letters as it is, so every catalog name.\<close>

lemma lower_char_fixed:
  "c \<notin> set ''ABCDEFGHIJKLMNOPQRSTUVWXYZ'' \<Longrightarrow> lower_char c = c"
proof -
  assume "c \<notin> set ''ABCDEFGHIJKLMNOPQRSTUVWXYZ''"
  then have "map_of (zip ''ABCDEFGHIJKLMNOPQRSTUVWXYZ'' ''abcdefghijklmnopqrstuvwxyz'') c = None"
    by (subst map_of_zip_is_None) simp_all
  then show ?thesis by (simp only: lower_char_def option.case)
qed

lemma lower_fixed:
  "set s \<inter> set ''ABCDEFGHIJKLMNOPQRSTUVWXYZ'' = {} \<Longrightarrow> lower s = s"
  unfolding lower_def by (rule map_idI) (use lower_char_fixed in blast)

lemma lower_FIELDS: "\<forall>f \<in> set FIELDS. lower f = f"
proof
  fix f assume "f \<in> set FIELDS"
  then have "set f \<inter> set ''ABCDEFGHIJKLMNOPQRSTUVWXYZ'' = {}"
    unfolding FIELDS_def by (elim set_ConsD [elim_format] disjE) simp_all
  then show "lower f = f" by (rule lower_fixed)
qed

lemma lower_catalog: "set fs \<subseteq> set FIELDS \<Longrightarrow> map lower fs = fs"
  using lower_FIELDS by (induction fs) auto

lemma check_fields_find:
  "check_fields fs =
     (case find (\<lambda>f. f \<notin> set FIELDS) fs of
        Some f \<Rightarrow> Inl (FieldDoesNotExist f)
      | None \<Rightarrow> Inr ())"
  by (induction fs) auto

text \<open>What the operations leave alone: the provider, the module's directory, the files.\<close>

lemma shelve_open_frame:
  "shelve_open path flag w = (res, w1) \<Longrightarrow>
     provider w1 = provider w \<and> here w1 = here w \<and> files w1 = files w"
  by (auto simp: shelve_open_def Let_def split: if_splits option.splits)

lemma retreivefromcache_frame:
  "retreivefromcache ip w = (res, w1) \<Longrightarrow>
     provider w1 = provider w \<and> here w1 = here w \<and> files w1 = files w"
  by (auto simp: retreivefromcache_def shelve_close_def Let_def
           split: prod.splits sum.splits if_splits dest: shelve_open_frame)

lemma get_request_frame:
  "get_request ip fields' excluded_fields cache_search w = (res, w1) \<Longrightarrow>
     provider w1 = provider w \<and> here w1 = here w \<and> files w1 = files w"
  by (auto simp: get_request_def Let_def
           split: prod.splits sum.splits option.splits if_splits dest: retreivefromcache_frame)

text \<open>A call with no argument but the flag goes straight to the query string.\<close>

lemma get_request_plain:
  "get_request None None None True (mk_world (Some key) store answer)
     = (Inr (Inr (''apiKey='' @ key)), mk_world (Some key) store answer)"
  by (simp add: get_request_def getkey_def mk_world_def key_path given_def build_query_def
        add_ip_def add_fields_def API_PARAM_def)

text \<open>Opening a shelf to read or update it, and reading it, keep the entries of every store.\<close>

lemma shelve_open_entries:
  "shelve_open path flag w = (res, w1) \<Longrightarrow> flag \<noteq> CHR ''n'' \<Longrightarrow>
     store_entries w1 p = store_entries w p
     \<and> (\<forall>db. res = Inr db \<longrightarrow> shelves w1 path = Some db)"
  by (auto simp: shelve_open_def store_entries_def Let_def split: if_splits option.splits)

lemma retreivefromcache_entries:
  "store_entries (snd (retreivefromcache ip w)) p = store_entries w p"
proof -
  let ?path = "joinpath (here w) CACHE_FILE"
  obtain res w1 where op: "shelve_open ?path (CHR ''c'') w = (res, w1)"
    by (cases "shelve_open ?path (CHR ''c'') w")
  from shelve_open_entries [OF op, of p]
  have same: "store_entries w1 p = store_entries w p"
    and written: "\<And>db. res = Inr db \<Longrightarrow> shelves w1 ?path = Some db"
    by simp_all
  show ?thesis
  proof (cases res)
    case (Inl e)
    with op same show ?thesis by (simp add: retreivefromcache_def Let_def)
  next
    case (Inr db)
    from written [OF Inr] have "store_entries (shelve_close ?path db w1) p = store_entries w1 p"
      by (simp add: shelve_close_def store_entries_def)
    with op Inr same show ?thesis
      by (simp add: retreivefromcache_def Let_def split: sum.splits)
  qed
qed

lemma get_request_entries:
  "store_entries (snd (get_request ip fields' excluded_fields cache_search w)) p = store_entries w p"
proof (cases "getkey w")
  case (Inl e)
  then show ?thesis by (simp add: get_request_def)
next
  case (Inr key)
  show ?thesis
  proof (cases "cache_search \<and> given ip")
    case False
    with Inr show ?thesis by (auto simp: get_request_def Let_def split: sum.splits)
  next
    case True
    obtain res w1 where r: "retreivefromcache (the ip) w = (res, w1)"
      by (cases "retreivefromcache (the ip) w")
    with retreivefromcache_entries [of "the ip" w p]
    have "store_entries w1 p = store_entries w p" by simp
    with Inr True r show ?thesis
      by (auto simp: get_request_def Let_def split: sum.splits option.splits)
  qed
qed

text \<open>Whatever the constructor was given, an instance it returns has the catalog names and \<^verbatim>\<open>currentfolder\<close>.\<close>

lemma init_fields_keys:
  "init_fields a fs s = Inr self \<Longrightarrow> fst ` set self = fst ` set s \<union> set fs"
proof (induction fs arbitrary: s)
  case Nil
  then show ?case by simp
next
  case (Cons f fs)
  from Cons.prems obtain v where "init_fields a fs (setattr s f v) = Inr self"
    by (auto split: sum.splits bool.splits)
  from Cons.IH [OF this] show ?case
    by (auto simp: setattr_def dom_update)
qed

lemma Response_init_has:
  assumes "Response_init folder a = Inr self"
  shows "getattribute self ''currentfolder'' = Inr (Path folder)"
    and "\<exists>v. getattribute self ''ip'' = Inr v"
proof -
  from assms obtain body where body: "init_fields a FIELDS [] = Inr body"
    and self: "self = setattr body ''currentfolder'' (Path folder)"
    by (auto simp: Response_init_def split: sum.splits)
  show "getattribute self ''currentfolder'' = Inr (Path folder)"
    by (simp add: self getattribute_setattr)
  have "''ip'' \<in> set FIELDS" by (simp add: FIELDS_def)
  with init_fields_keys [OF body] have "''ip'' \<in> fst ` set body" by simp
  then obtain v where "map_of body ''ip'' = Some v"
    by (metis in_keys_iff not_None_eq)
  then have "getattribute body ''ip'' = Inr v"
    by (simp add: getattribute_def)
  then show "\<exists>v. getattribute self ''ip'' = Inr v"
    by (simp add: self getattribute_setattr)
qed

lemma record_1234_built: "Response_init ''/lib'' payload_1234 = Inr record_1234"
  by code_simp

text \<open>
  A hit of the cache lookup does not use the stored value: the result is the constructor
  applied to the address, which leaves every catalog attribute empty when the address
  contains no catalog name.
\<close>

lemma retreivefromcache_hit:
  "shelves w (joinpath (here w) CACHE_FILE) = Some db \<Longrightarrow> truthy (shelf_get db ip) \<Longrightarrow>
     fst (retreivefromcache ip w) =
       (case Response_init (here w) (Str ip) of Inl e \<Rightarrow> Inl e | Inr self \<Rightarrow> Inr (Some self))"
  by (simp add: retreivefromcache_def shelve_open_def Let_def split: sum.splits)

lemma init_fields_Str:
  "\<forall>f \<in> set fs. \<not> str_contains f ip \<Longrightarrow>
     init_fields (Str ip) fs self = Inr (fold (\<lambda>f s. setattr s f (Str '''')) fs self)"
  by (induction fs arbitrary: self) simp_all

lemma Response_init_Str:
  assumes "\<forall>f \<in> set FIELDS. \<not> str_contains f ip"
  shows "\<exists>self. Response_init folder (Str ip) = Inr self
     \<and> (\<forall>f \<in> set FIELDS. getattribute self f = Inr (Str ''''))"
proof -
  let ?body = "fold (\<lambda>f s. setattr s f (Str '''')) FIELDS []"
  let ?self = "setattr ?body ''currentfolder'' (Path folder)"
  have "Response_init folder (Str ip) = Inr ?self"
    by (simp add: Response_init_def init_fields_Str [OF assms])
  moreover have "\<forall>f \<in> set FIELDS. getattribute ?self f = Inr (Str '''')"
    using currentfolder_not_field
    by (auto simp: getattribute_setattr) (simp add: getattribute_def fold_setattr_lookup)
  ultimately show ?thesis by blast
qed

subsection \<open>The pattern of \<^verbatim>\<open>checkipformat\<close>\<close>

text \<open>
  What each construct of the pattern leaves of a string, then what a segment and the whole
  pattern match: exactly four segments of the specification, with dots between them.
\<close>

lemma rems_Cat:
  "t \<in> set (rx_rems (Cat r1 r2) s) \<longleftrightarrow>
     (\<exists>u. u \<in> set (rx_rems r1 s) \<and> t \<in> set (rx_rems r2 u))"
  by auto

lemma rems_Lit: "t \<in> set (rx_rems (Lit c) s) \<longleftrightarrow> s = c # t"
  by (cases s) auto

lemma rems_Range:
  "t \<in> set (rx_rems (Range lo hi) s) \<longleftrightarrow> (\<exists>x. s = x # t \<and> in_range lo hi x)"
  by (cases s) auto

lemma rems_Opt: "t \<in> set (rx_rems (Opt r) s) \<longleftrightarrow> t \<in> set (rx_rems r s) \<or> t = s"
  by auto

lemma rems_Rep_1_2:
  "t \<in> set (rx_rems (Rep r 1 2) s) \<longleftrightarrow>
     (\<exists>u. u \<in> set (rx_rems r s) \<and> (t = u \<or> t \<in> set (rx_rems r u)))"
proof -
  have "rx_rems (Rep r 1 2) s = rep_rems (rx_rems r) (Suc 0) (Suc (Suc 0)) s"
    by (simp add: numeral_2_eq_2)
  then show ?thesis by auto
qed

lemma low_digit: "in_range (CHR ''0'') (CHR ''2'') c \<Longrightarrow> is_digit c"
  by (simp add: is_digit_def in_range_def)

lemma short_cases:
  "1 \<le> length s \<Longrightarrow> length s \<le> 3 \<Longrightarrow>
     (\<exists>x. s = [x]) \<or> (\<exists>x y. s = [x, y]) \<or> (\<exists>x y z. s = [x, y, z])"
  by (cases s; cases "tl s"; cases "tl (tl s)"; cases "tl (tl (tl s))") auto

lemma rems_segment_unfolded:
  "t \<in> set (rx_rems segment s) \<longleftrightarrow>
     (\<exists>u. ((\<exists>z. s = z # u \<and> in_range (CHR ''0'') (CHR ''2'') z) \<or> u = s)
        \<and> (\<exists>v. (\<exists>x. u = x # v \<and> is_digit x)
             \<and> (t = v \<or> (\<exists>y. v = y # t \<and> is_digit y))))"
  by (simp only: segment_def rems_Cat rems_Opt rems_Rep_1_2 rems_Range is_digit_def)

lemma rems_segment:
  "t \<in> set (rx_rems segment s) \<longleftrightarrow> (\<exists>a. s = a @ t \<and> spec_segment a)"
proof
  assume "t \<in> set (rx_rems segment s)"
  then obtain u v x where u: "(\<exists>z. s = z # u \<and> in_range (CHR ''0'') (CHR ''2'') z) \<or> u = s"
    and x: "u = x # v" "is_digit x"
    and t: "t = v \<or> (\<exists>y. v = y # t \<and> is_digit y)"
    unfolding rems_segment_unfolded by (elim exE conjE)
  from u x t consider
      (one) "s = [x] @ t"
    | (two) y where "s = [x, y] @ t" "is_digit y"
    | (lead) z where "s = [z, x] @ t" "in_range (CHR ''0'') (CHR ''2'') z"
    | (three) z y where "s = [z, x, y] @ t" "in_range (CHR ''0'') (CHR ''2'') z" "is_digit y"
    by (elim disjE exE conjE) simp_all
  then show "\<exists>a. s = a @ t \<and> spec_segment a"
  proof cases
    case one
    with x show ?thesis unfolding spec_segment_def by (intro exI [of _ "[x]"]) simp
  next
    case two
    with x show ?thesis unfolding spec_segment_def by (intro exI [of _ "[x, y]"]) simp
  next
    case lead
    with x low_digit show ?thesis unfolding spec_segment_def
      by (intro exI [of _ "[z, x]"]) simp
  next
    case three
    with x low_digit show ?thesis unfolding spec_segment_def
      by (intro exI [of _ "[z, x, y]"]) simp
  qed
next
  assume "\<exists>a. s = a @ t \<and> spec_segment a"
  then obtain a where s: "s = a @ t" and a: "spec_segment a" by (elim exE conjE)
  from a have len: "1 \<le> length a" "length a \<le> 3" and dig: "list_all is_digit a"
    and low: "length a = 3 \<longrightarrow> in_range (CHR ''0'') (CHR ''2'') (hd a)"
    unfolding spec_segment_def by simp_all
  from short_cases [OF len] consider
      (one) x where "a = [x]"
    | (two) x y where "a = [x, y]"
    | (three) x y z where "a = [x, y, z]"
    by blast
  then show "t \<in> set (rx_rems segment s)"
  proof cases
    case one
    with dig s show ?thesis
      unfolding rems_segment_unfolded
      by (intro exI [of _ s]) simp
  next
    case two
    with dig s show ?thesis
      unfolding rems_segment_unfolded
      by (intro exI [of _ s]) simp
  next
    case three
    with dig low s show ?thesis
      unfolding rems_segment_unfolded
      by (intro exI [of _ "y # z # t"]) simp
  qed
qed

lemma rems_segment_dot:
  "t \<in> set (rx_rems (Cat segment (Cat (Lit (CHR ''.'')) r)) s) \<longleftrightarrow>
     (\<exists>a u. s = a @ ''.'' @ u \<and> spec_segment a \<and> t \<in> set (rx_rems r u))"
proof -
  have "t \<in> set (rx_rems (Cat segment (Cat (Lit (CHR ''.'')) r)) s) \<longleftrightarrow>
      (\<exists>v. (\<exists>a. s = a @ v \<and> spec_segment a)
         \<and> (\<exists>u. v = CHR ''.'' # u \<and> t \<in> set (rx_rems r u)))"
    by (simp only: rems_Cat rems_segment rems_Lit)
  also have "\<dots> \<longleftrightarrow> (\<exists>a u. s = a @ ''.'' @ u \<and> spec_segment a \<and> t \<in> set (rx_rems r u))"
    by auto
  finally show ?thesis .
qed

lemma rems_ipv4:
  "t \<in> set (rx_rems ipv4 s) \<longleftrightarrow>
     (\<exists>a b c d. s = a @ ''.'' @ b @ ''.'' @ c @ ''.'' @ d @ t
        \<and> spec_segment a \<and> spec_segment b \<and> spec_segment c \<and> spec_segment d)"
proof -
  have unfolded: "t \<in> set (rx_rems ipv4 s) \<longleftrightarrow>
      (\<exists>a u. s = a @ ''.'' @ u \<and> spec_segment a
        \<and> (\<exists>b v. u = b @ ''.'' @ v \<and> spec_segment b
          \<and> (\<exists>c w. v = c @ ''.'' @ w \<and> spec_segment c
            \<and> (\<exists>d. w = d @ t \<and> spec_segment d))))"
    by (simp only: ipv4_def rems_segment_dot rems_segment)
  show ?thesis
  proof
    assume "t \<in> set (rx_rems ipv4 s)"
    then obtain a u b v c w d where "s = a @ ''.'' @ u" "u = b @ ''.'' @ v" "v = c @ ''.'' @ w"
      "w = d @ t" and segs: "spec_segment a" "spec_segment b" "spec_segment c" "spec_segment d"
      unfolding unfolded by (elim exE conjE)
    then have "s = a @ ''.'' @ b @ ''.'' @ c @ ''.'' @ d @ t" by simp
    with segs show "\<exists>a b c d. s = a @ ''.'' @ b @ ''.'' @ c @ ''.'' @ d @ t
        \<and> spec_segment a \<and> spec_segment b \<and> spec_segment c \<and> spec_segment d"
      by (intro exI conjI)
  next
    assume "\<exists>a b c d. s = a @ ''.'' @ b @ ''.'' @ c @ ''.'' @ d @ t
        \<and> spec_segment a \<and> spec_segment b \<and> spec_segment c \<and> spec_segment d"
    then obtain a b c d where s: "s = a @ ''.'' @ b @ ''.'' @ c @ ''.'' @ d @ t"
      and segs: "spec_segment a" "spec_segment b" "spec_segment c" "spec_segment d"
      by (elim exE conjE)
    show "t \<in> set (rx_rems ipv4 s)"
      unfolding unfolded
      by (intro exI [of _ a] exI [of _ "b @ ''.'' @ c @ ''.'' @ d @ t"] conjI
            exI [of _ b] exI [of _ "c @ ''.'' @ d @ t"] exI [of _ c] exI [of _ "d @ t"]
            exI [of _ d] s segs refl)
  qed
qed

text \<open>
  After a match the chunks between the dots are the four segments (the last one with the
  newline, if there is one), \<^verbatim>\<open>int\<close> reads each of them, and the count of the values
  below 256 decides.
\<close>

lemma digit_not_dot: "is_digit c \<Longrightarrow> c \<noteq> CHR ''.''"
  by (auto simp: is_digit_def in_range_def)

lemma digit_not_space: "is_digit c \<Longrightarrow> \<not> is_space c"
  by (auto simp: is_digit_def in_range_def is_space_def)

lemma segment_digits: "spec_segment a \<Longrightarrow> a \<noteq> [] \<and> list_all is_digit a"
  by (auto simp: spec_segment_def)

lemma segment_no_dot: "spec_segment a \<Longrightarrow> CHR ''.'' \<notin> set a"
  using digit_not_dot by (auto simp: spec_segment_def list_all_iff)

lemma split_on_none: "c \<notin> set a \<Longrightarrow> split_on c a = [a]"
  by (induction a) auto

lemma split_on_append: "c \<notin> set a \<Longrightarrow> split_on c (a @ c # rest) = a # split_on c rest"
  by (induction a) auto

lemma split_on_quad:
  assumes "spec_segment a" "spec_segment b" "spec_segment c" "spec_segment d"
    and "CHR ''.'' \<notin> set rest"
  shows "split_on (CHR ''.'') (a @ ''.'' @ b @ ''.'' @ c @ ''.'' @ d @ rest) = [a, b, c, d @ rest]"
proof -
  from assms segment_no_dot have "CHR ''.'' \<notin> set (d @ rest)" by simp
  then have "split_on (CHR ''.'') (d @ rest) = [d @ rest]" by (rule split_on_none)
  with assms(1-3) show ?thesis
    by (simp add: split_on_append segment_no_dot)
qed

lemma dropWhile_keep: "xs \<noteq> [] \<Longrightarrow> \<not> P (hd xs) \<Longrightarrow> dropWhile P xs = xs"
  by (cases xs) auto

lemma strip_digits:
  assumes "a \<noteq> []" and "list_all is_digit a"
  shows "strip a = a" and "strip (a @ ''\<newline>'') = a"
proof -
  from assms have first: "\<not> is_space (hd a)" and final: "\<not> is_space (last a)"
    using digit_not_space by (auto simp: list_all_iff)
  from assms(1) final have reversed: "dropWhile is_space (rev a) = rev a"
    by (intro dropWhile_keep) (simp_all add: hd_rev)
  from assms(1) first show "strip a = a"
    by (simp add: strip_def dropWhile_keep reversed)
  from assms(1) first have "dropWhile is_space (a @ ''\<newline>'') = a @ ''\<newline>''"
    by (intro dropWhile_keep) simp_all
  moreover have "is_space (CHR ''\<newline>'')" by (simp add: is_space_def)
  ultimately show "strip (a @ ''\<newline>'') = a"
    by (simp add: strip_def reversed)
qed

lemma py_int_segment:
  assumes "spec_segment a"
  shows "py_int a = Inr (decimal a)" and "py_int (a @ ''\<newline>'') = Inr (decimal a)"
  using segment_digits [OF assms] strip_digits [of a]
  by (simp_all add: py_int_def decimal_def Let_def)

lemma filter_four:
  "length (filter P [w, x, y, z]) = 4 \<longleftrightarrow> P w \<and> P x \<and> P y \<and> P z"
  by auto

lemma re_match_ipv4:
  "re_match ipv4 ip \<longleftrightarrow>
     (\<exists>a b c d rest. ip = a @ ''.'' @ b @ ''.'' @ c @ ''.'' @ d @ rest
        \<and> spec_segment a \<and> spec_segment b \<and> spec_segment c \<and> spec_segment d
        \<and> (rest = [] \<or> rest = ''\<newline>''))"
proof -
  have "re_match ipv4 ip \<longleftrightarrow> (\<exists>rest. rest \<in> set (rx_rems ipv4 ip) \<and> (rest = [] \<or> rest = ''\<newline>''))"
    unfolding re_match_def Bex_def ..
  also have "\<dots> \<longleftrightarrow> (\<exists>a b c d rest. ip = a @ ''.'' @ b @ ''.'' @ c @ ''.'' @ d @ rest
        \<and> spec_segment a \<and> spec_segment b \<and> spec_segment c \<and> spec_segment d
        \<and> (rest = [] \<or> rest = ''\<newline>''))"
    unfolding rems_ipv4 by blast
  finally show ?thesis .
qed

lemma checkipformat_quad:
  assumes segs: "spec_segment a" "spec_segment b" "spec_segment c" "spec_segment d"
    and rest: "rest = [] \<or> rest = ''\<newline>''"
  shows "checkipformat (a @ ''.'' @ b @ ''.'' @ c @ ''.'' @ d @ rest) =
     (if decimal a < 256 \<and> decimal b < 256 \<and> decimal c < 256 \<and> decimal d < 256 then Inr ()
      else Inl (IncorrectIpFormat ''ipv4''))"
proof -
  let ?ip = "a @ ''.'' @ b @ ''.'' @ c @ ''.'' @ d @ rest"
  from segs rest have m: "re_match ipv4 ?ip"
    unfolding re_match_ipv4 by blast
  from rest have "CHR ''.'' \<notin> set rest" by auto
  from split_on_quad [OF segs this]
  have chunks: "split_on (CHR ''.'') ?ip = [a, b, c, d @ rest]" .
  from rest py_int_segment [OF segs(4)] have last: "py_int (d @ rest) = Inr (decimal d)"
    by auto
  have ints: "map_int [a, b, c, d @ rest] = Inr [decimal a, decimal b, decimal c, decimal d]"
    by (simp add: py_int_segment(1) segs last)
  show ?thesis
    unfolding checkipformat_def
    by (simp only: m chunks ints Let_def if_True sum.case filter_four)
qed

lemma join_Cons: "join sep ((x # y) # ys) = x # join sep (y # ys)"
  by (cases ys) simp_all

lemma split_on_nonempty: "split_on c s \<noteq> []"
  by (induction s) (auto split: list.splits)

lemma join_split_on: "join [c] (split_on c s) = s"
proof (induction s)
  case Nil
  then show ?case by simp
next
  case (Cons x xs)
  obtain y ys where parts: "split_on c xs = y # ys"
    using split_on_nonempty [of c xs] by (cases "split_on c xs") auto
  with Cons.IH show ?case
    by (cases "x = c") (simp_all add: join_Cons)
qed

lemma four_elements: "length xs = 4 \<Longrightarrow> \<exists>a b c d. xs = [a, b, c, d]"
  by (cases xs; cases "tl xs"; cases "tl (tl xs)"; cases "tl (tl (tl xs))") auto

lemma spec_dotted_quad_iff:
  "spec_dotted_quad s \<longleftrightarrow>
     (\<exists>a b c d. s = a @ ''.'' @ b @ ''.'' @ c @ ''.'' @ d
        \<and> spec_segment a \<and> spec_segment b \<and> spec_segment c \<and> spec_segment d
        \<and> decimal a < 256 \<and> decimal b < 256 \<and> decimal c < 256 \<and> decimal d < 256)"
proof
  assume q: "spec_dotted_quad s"
  then have "length (split_on (CHR ''.'') s) = 4"
    by (simp add: spec_dotted_quad_def Let_def)
  from four_elements [OF this] obtain a b c d where parts: "split_on (CHR ''.'') s = [a, b, c, d]"
    by blast
  from join_split_on [of "CHR ''.''" s] parts have "s = a @ ''.'' @ b @ ''.'' @ c @ ''.'' @ d"
    by simp
  moreover from q parts have "spec_segment a \<and> spec_segment b \<and> spec_segment c \<and> spec_segment d
        \<and> decimal a < 256 \<and> decimal b < 256 \<and> decimal c < 256 \<and> decimal d < 256"
    by (simp add: spec_dotted_quad_def Let_def)
  ultimately show "\<exists>a b c d. s = a @ ''.'' @ b @ ''.'' @ c @ ''.'' @ d
        \<and> spec_segment a \<and> spec_segment b \<and> spec_segment c \<and> spec_segment d
        \<and> decimal a < 256 \<and> decimal b < 256 \<and> decimal c < 256 \<and> decimal d < 256"
    by blast
next
  assume "\<exists>a b c d. s = a @ ''.'' @ b @ ''.'' @ c @ ''.'' @ d
        \<and> spec_segment a \<and> spec_segment b \<and> spec_segment c \<and> spec_segment d
        \<and> decimal a < 256 \<and> decimal b < 256 \<and> decimal c < 256 \<and> decimal d < 256"
  then obtain a b c d where s: "s = a @ ''.'' @ b @ ''.'' @ c @ ''.'' @ d"
    and segs: "spec_segment a" "spec_segment b" "spec_segment c" "spec_segment d"
    and small: "decimal a < 256" "decimal b < 256" "decimal c < 256" "decimal d < 256"
    by (elim exE conjE)
  from split_on_quad [OF segs, of "[]"] s have "split_on (CHR ''.'') s = [a, b, c, d]"
    by simp
  with segs small show "spec_dotted_quad s"
    by (simp add: spec_dotted_quad_def Let_def)
qed

subsection \<open>The constructor\<close>

text \<open>
  C2, as the code has it: for every payload dictionary the constructor returns an instance on
  which every catalog name is an attribute, with the payload's value when the name is a key
  of the payload and the empty string otherwise; the attributes are the catalog names in
  catalog order followed by \<^verbatim>\<open>currentfolder\<close>, which holds the directory of the module and
  is the one attribute outside the catalog.
\<close>

theorem Response_init_attributes:
  "\<exists>self. Response_init folder (Dict d) = Inr self
     \<and> (\<forall>f \<in> set FIELDS.
          getattribute self f = Inr (case map_of d f of Some v \<Rightarrow> v | None \<Rightarrow> Str ''''))
     \<and> map fst self = FIELDS @ [''currentfolder'']
     \<and> getattribute self ''currentfolder'' = Inr (Path folder)"
proof -
  let ?g = "\<lambda>f. case map_of d f of Some v \<Rightarrow> v | None \<Rightarrow> Str ''''"
  let ?body = "fold (\<lambda>f s. setattr s f (?g f)) FIELDS []"
  let ?self = "setattr ?body ''currentfolder'' (Path folder)"
  have init: "Response_init folder (Dict d) = Inr ?self"
    by (simp add: Response_init_def init_fields_Dict)
  have keys_body: "map fst ?body = FIELDS"
    using fold_setattr_keys [OF distinct_FIELDS, of "[]" ?g] by simp
  have fresh: "''currentfolder'' \<notin> fst ` set ?body"
    using currentfolder_not_field keys_body by (metis set_map)
  have keys: "map fst ?self = FIELDS @ [''currentfolder'']"
    using fresh by (simp add: setattr_keys keys_body)
  have fields: "\<forall>f \<in> set FIELDS. getattribute ?self f = Inr (?g f)"
    using currentfolder_not_field
    by (auto simp: getattribute_setattr) (simp add: getattribute_def fold_setattr_lookup)
  have folder: "getattribute ?self ''currentfolder'' = Inr (Path folder)"
    by (simp add: getattribute_setattr)
  from init keys fields folder show ?thesis by blast
qed

theorem Response_init_attributes_witness:
  "\<exists>self. Response_init ''/lib'' (Dict [(''ip'', Str ''1.2.3.4''), (''extra'', Num 1)]) = Inr self
     \<and> getattribute self ''ip'' = Inr (Str ''1.2.3.4'')
     \<and> getattribute self ''city'' = Inr (Str '''')
     \<and> map fst self = FIELDS @ [''currentfolder'']"
proof -
  let ?d = "[(''ip'', Str ''1.2.3.4''), (''extra'', Num 1)]"
  obtain self where init: "Response_init ''/lib'' (Dict ?d) = Inr self"
    and fields: "\<forall>f \<in> set FIELDS.
          getattribute self f = Inr (case map_of ?d f of Some v \<Rightarrow> v | None \<Rightarrow> Str '''')"
    and keys: "map fst self = FIELDS @ [''currentfolder'']"
    using Response_init_attributes [of "''/lib''" ?d] by blast
  have "''ip'' \<in> set FIELDS" and "''city'' \<in> set FIELDS"
    by (simp_all add: FIELDS_def)
  with fields have "getattribute self ''ip'' = Inr (Str ''1.2.3.4'')"
    and "getattribute self ''city'' = Inr (Str '''')"
    by fastforce+
  with init keys show ?thesis by blast
qed

text \<open>
  C2 as stated fails: the instance built from the empty payload has an attribute that is not a
  catalog name.
\<close>

theorem Response_init_extra_attribute:
  "\<not> set (attribute_names (Response_init ''/lib'' (Dict []))) \<subseteq> set FIELDS"
proof -
  have "attribute_names (Response_init ''/lib'' (Dict [])) = FIELDS @ [''currentfolder'']"
    by (simp add: attribute_names_def Response_init_def init_fields_Dict FIELDS_def setattr_def)
  then show ?thesis using currentfolder_not_field by simp
qed

subsection \<open>The request without a key\<close>

text \<open>
  C6: when the key file does not exist, \<^verbatim>\<open>get\<close> raises \<^verbatim>\<open>KeyNotFound\<close> whatever its
  arguments are, and the world it returns is the one it was given: nothing was logged, so no
  HTTP request was made and the cache store was not opened.
\<close>

theorem get_without_key:
  "files w (joinpath (here w) KEY_FILE) = None \<Longrightarrow>
     get ip fields' excluded_fields cache_search w = (Inl KeyNotFound, w)"
  by (simp add: get_def get_request_def getkey_def)

theorem get_without_key_witness:
  "files (mk_world None None None) (joinpath (here (mk_world None None None)) KEY_FILE) = None
   \<and> get (Some ''1.2.3.4'') None None True (mk_world None None None)
       = (Inl KeyNotFound, mk_world None None None)"
  using get_without_key [of "mk_world None None None" "Some ''1.2.3.4''" None None True]
  by (simp add: mk_world_def key_path)

subsection \<open>Formatting the field lists\<close>

text \<open>
  C3, as the code has it: \<^verbatim>\<open>formatfields\<close> raises \<^verbatim>\<open>FieldDoesNotExist(f)\<close> for the first
  element \<^verbatim>\<open>f\<close> that is not a catalog name, the comparison being exact (case-sensitive);
  otherwise it returns the elements lower-cased and joined with commas in input order, and
  lower-casing changes none of them. In particular \<^verbatim>\<open>["city", "asn"]\<close> gives
  \<^verbatim>\<open>"city,asn"\<close> and \<^verbatim>\<open>["bogus"]\<close> raises \<^verbatim>\<open>FieldDoesNotExist("bogus")\<close>.
\<close>

theorem formatfields_first_unknown:
  "formatfields fs =
     (case find (\<lambda>f. f \<notin> set FIELDS) fs of
        Some f \<Rightarrow> Inl (FieldDoesNotExist f)
      | None \<Rightarrow> Inr (join '','' (map lower fs)))
   \<and> (set fs \<subseteq> set FIELDS \<longrightarrow> map lower fs = fs)
   \<and> formatfields [''city'', ''asn''] = Inr ''city,asn''
   \<and> formatfields [''bogus''] = Inl (FieldDoesNotExist ''bogus'')"
proof -
  have general: "formatfields fs =
     (case find (\<lambda>f. f \<notin> set FIELDS) fs of
        Some f \<Rightarrow> Inl (FieldDoesNotExist f)
      | None \<Rightarrow> Inr (join '','' (map lower fs)))"
    by (simp add: formatfields_def check_fields_find split: option.splits)
  have city: "formatfields [''city'', ''asn''] = Inr ''city,asn''"
    by (simp add: formatfields_def FIELDS_def lower_def lower_char_def)
  have bogus: "formatfields [''bogus''] = Inl (FieldDoesNotExist ''bogus'')"
    by (simp add: formatfields_def FIELDS_def)
  show ?thesis
    by (intro conjI impI) (rule general, erule lower_catalog, rule city, rule bogus)
qed

theorem formatfields_first_unknown_witness:
  "set [''city'', ''asn''] \<subseteq> set FIELDS
   \<and> map lower [''city'', ''asn''] = [''city'', ''asn'']
   \<and> formatfields [''city'', ''bogus'', ''nope''] = Inl (FieldDoesNotExist ''bogus'')"
proof -
  have sub: "set [''city'', ''asn''] \<subseteq> set FIELDS"
    by (simp add: FIELDS_def)
  have "set [''city'', ''asn''] \<subseteq> set FIELDS \<longrightarrow> map lower [''city'', ''asn''] = [''city'', ''asn'']"
    using formatfields_first_unknown [of "[''city'', ''asn'']"] by (elim conjE)
  with sub have low: "map lower [''city'', ''asn''] = [''city'', ''asn'']"
    by (rule rev_mp)
  have first: "find (\<lambda>f. f \<notin> set FIELDS) [''city'', ''bogus'', ''nope''] = Some ''bogus''"
    by (simp add: FIELDS_def)
  have "formatfields [''city'', ''bogus'', ''nope''] = Inl (FieldDoesNotExist ''bogus'')"
    using formatfields_first_unknown [of "[''city'', ''bogus'', ''nope'']"]
    by (simp only: first option.case)
  with sub low show ?thesis by (intro conjI)
qed

text \<open>
  C3 as stated fails on its own example: \<^verbatim>\<open>"City"\<close> is not a catalog name, so
  \<^verbatim>\<open>["City", "ASN"]\<close> raises instead of returning \<^verbatim>\<open>"city,asn"\<close>.
\<close>

theorem formatfields_City_ASN:
  "formatfields [''City'', ''ASN''] = Inl (FieldDoesNotExist ''City'')"
  by (simp add: formatfields_def FIELDS_def)

subsection \<open>The status of the provider's answer\<close>

text \<open>
  C5, as the code has it: whenever \<^verbatim>\<open>get\<close> reaches the request and the provider answers,
  status 200 gives the instance built from the JSON body, each of 401, 403, 404, 423 and 429
  raises \<^verbatim>\<open>RequestError\<close> with that code and its fixed explanation, and any other status
  raises \<^verbatim>\<open>RequestError('Unknown', 'Unknown')\<close>, with a capital U; the request is the last
  event logged.
\<close>

theorem get_status_mapping:
  assumes "get_request ip fields' excluded_fields cache_search w = (Inr (Inr query_str), w1)"
    and "provider w (URL @ query_str) = Some r"
  shows "fst (get ip fields' excluded_fields cache_search w) =
      (if status_code r = 200 then
         (case json r of Some body \<Rightarrow> Response_init (here w) body | None \<Rightarrow> Inl JSONDecodeError)
       else if status_code r = 401 then Inl (RequestError (Num 401) text_401)
       else if status_code r = 403 then Inl (RequestError (Num 403) text_403)
       else if status_code r = 404 then Inl (RequestError (Num 404) text_404)
       else if status_code r = 423 then Inl (RequestError (Num 423) text_423)
       else if status_code r = 429 then Inl (RequestError (Num 429) text_429)
       else Inl (RequestError (Str ''Unknown'') ''Unknown''))
     \<and> trace (snd (get ip fields' excluded_fields cache_search w))
         = trace w1 @ [HttpGet (URL @ query_str)]"
proof -
  from get_request_frame [OF assms(1)]
  have same: "provider w1 = provider w" "here w1 = here w" by simp_all
  with assms show ?thesis
    by (simp add: get_def get_response_def Let_def split: option.splits)
qed

theorem get_status_mapping_witness:
  "get_request None None None True (mk_world (Some ''K'') None (Some \<lparr>status_code = 429, json = None\<rparr>))
     = (Inr (Inr ''apiKey=K''), mk_world (Some ''K'') None (Some \<lparr>status_code = 429, json = None\<rparr>))
   \<and> provider (mk_world (Some ''K'') None (Some \<lparr>status_code = 429, json = None\<rparr>)) (URL @ ''apiKey=K'')
       = Some \<lparr>status_code = 429, json = None\<rparr>
   \<and> fst (get None None None True (mk_world (Some ''K'') None (Some \<lparr>status_code = 429, json = None\<rparr>)))
       = Inl (RequestError (Num 429) text_429)"
proof -
  let ?w = "mk_world (Some ''K'') None (Some \<lparr>status_code = 429, json = None\<rparr>)"
  have req: "get_request None None None True ?w = (Inr (Inr ''apiKey=K''), ?w)"
    using get_request_plain [of "''K''"] by simp
  have ans: "provider ?w (URL @ ''apiKey=K'') = Some \<lparr>status_code = 429, json = None\<rparr>"
    by (simp add: mk_world_sel)
  from get_status_mapping [OF req ans] req ans show ?thesis by simp
qed

text \<open>
  C5 as stated fails on the fallback: for status 500 the exception does not carry the
  lower-case strings \<^verbatim>\<open>"unknown"\<close>.
\<close>

theorem get_status_500:
  "fst (get None None None True (mk_world (Some ''K'') None (Some \<lparr>status_code = 500, json = None\<rparr>)))
     \<noteq> Inl (RequestError (Str ''unknown'') ''unknown'')"
proof -
  let ?w = "mk_world (Some ''K'') None (Some \<lparr>status_code = 500, json = None\<rparr>)"
  have req: "get_request None None None True ?w = (Inr (Inr ''apiKey=K''), ?w)"
    using get_request_plain [of "''K''"] by simp
  have "fst (get None None None True ?w) = Inl (RequestError (Str ''Unknown'') ''Unknown'')"
    by (simp add: get_def req mk_world_sel get_response_def Let_def)
  then show ?thesis by simp
qed

subsection \<open>The request and the cache store\<close>

text \<open>
  C8: whatever its arguments and the world, \<^verbatim>\<open>get\<close> leaves the entries of every cache
  store as they were: it writes, overwrites and deletes none. (Its lookup opens the store with
  the flag \<^verbatim>\<open>'c'\<close>, which creates a missing store, with no entry.)
\<close>

theorem get_keeps_cache_entries:
  "store_entries (snd (get ip fields' excluded_fields cache_search w)) path = store_entries w path"
proof -
  obtain res w1 where r: "get_request ip fields' excluded_fields cache_search w = (res, w1)"
    by (cases "get_request ip fields' excluded_fields cache_search w")
  with get_request_entries [of ip fields' excluded_fields cache_search w path]
  have same: "store_entries w1 path = store_entries w path" by simp
  have log: "store_entries (w1\<lparr>trace := t\<rparr>) path = store_entries w1 path" for t
    by (simp add: store_entries_def)
  from r same log show ?thesis
    by (auto simp: get_def Let_def split: sum.splits option.splits)
qed

theorem get_keeps_cache_entries_witness:
  "store_entries (snd (get (Some ''1.2.3.4'') None None True
      (mk_world (Some ''K'') (Some [(''9.9.9.9'', Dict record_1234)]) None))) ''/lib/cache''
     = [(''9.9.9.9'', Dict record_1234)]"
  using get_keeps_cache_entries [of "Some ''1.2.3.4''" None None True
      "mk_world (Some ''K'') (Some [(''9.9.9.9'', Dict record_1234)]) None" "''/lib/cache''"]
  by (simp add: store_entries_def mk_world_sel)

subsection \<open>Opening the store\<close>

text \<open>
  C9: for every instance the constructor returns, when the cache store does not exist both
  \<^verbatim>\<open>cache\<close> and \<^verbatim>\<open>uncache\<close> fail with the error of \<^verbatim>\<open>shelve.open\<close> and leave the
  world without a store (only the attempt is logged), while \<^verbatim>\<open>retreivefromcache\<close> reports
  a miss and leaves an empty store behind.
\<close>

theorem cache_needs_store:
  assumes "Response_init (here w) payload = Inr self"
    and "shelves w (joinpath (here w) CACHE_FILE) = None"
  shows "cache self w =
           (Inl DbmError, w\<lparr>trace := trace w @ [ShelveOpen (joinpath (here w) CACHE_FILE) (CHR ''w'')]\<rparr>)
       \<and> uncache self w =
           (Inl DbmError, w\<lparr>trace := trace w @ [ShelveOpen (joinpath (here w) CACHE_FILE) (CHR ''w'')]\<rparr>)
       \<and> fst (retreivefromcache ip w) = Inr None
       \<and> shelves (snd (retreivefromcache ip w)) (joinpath (here w) CACHE_FILE) = Some []"
proof -
  from Response_init_has [OF assms(1)] obtain v
    where folder: "getattribute self ''currentfolder'' = Inr (Path (here w))"
      and ip: "getattribute self ''ip'' = Inr v"
    by blast
  from folder have path: "cache_path self = Inr (joinpath (here w) CACHE_FILE)"
    by (simp add: cache_path_def)
  have op: "shelve_open (joinpath (here w) CACHE_FILE) (CHR ''w'') w =
      (Inl DbmError, w\<lparr>trace := trace w @ [ShelveOpen (joinpath (here w) CACHE_FILE) (CHR ''w'')]\<rparr>)"
    using assms(2) by (simp add: shelve_open_def Let_def)
  have c: "cache self w =
      (Inl DbmError, w\<lparr>trace := trace w @ [ShelveOpen (joinpath (here w) CACHE_FILE) (CHR ''w'')]\<rparr>)"
    by (simp add: cache_def ip path op)
  have u: "uncache self w =
      (Inl DbmError, w\<lparr>trace := trace w @ [ShelveOpen (joinpath (here w) CACHE_FILE) (CHR ''w'')]\<rparr>)"
    by (simp add: uncache_def ip path op)
  have r: "fst (retreivefromcache ip w) = Inr None
      \<and> shelves (snd (retreivefromcache ip w)) (joinpath (here w) CACHE_FILE) = Some []"
    using assms(2)
    by (simp add: retreivefromcache_def shelve_open_def shelve_close_def shelf_get_def Let_def)
  from c u r show ?thesis by simp
qed

theorem cache_needs_store_witness:
  "Response_init (here (mk_world None None None)) payload_1234 = Inr record_1234
   \<and> shelves (mk_world None None None) (joinpath (here (mk_world None None None)) CACHE_FILE) = None
   \<and> fst (cache record_1234 (mk_world None None None)) = Inl DbmError
   \<and> fst (uncache record_1234 (mk_world None None None)) = Inl DbmError
   \<and> shelves (snd (cache record_1234 (mk_world None None None))) ''/lib/cache'' = None
   \<and> shelves (snd (retreivefromcache ''1.2.3.4'' (mk_world None None None))) ''/lib/cache'' = Some []"
proof -
  let ?w = "mk_world None None None"
  have built: "Response_init (here ?w) payload_1234 = Inr record_1234"
    by (simp add: mk_world_sel record_1234_built)
  have missing: "shelves ?w (joinpath (here ?w) CACHE_FILE) = None"
    by (simp add: mk_world_sel)
  from cache_needs_store [OF built missing, of "''1.2.3.4''"] built missing show ?thesis
    by (simp add: mk_world_sel store_path)
qed

subsection \<open>Removing an instance from the store\<close>

text \<open>
  C10, as the code has it: for an instance whose \<^verbatim>\<open>ip\<close> is a string that is not a key of
  its cache store, when the value stored under the literal key \<^verbatim>\<open>'ip'\<close> is true in
  Python's sense (as every value that \<^verbatim>\<open>cache\<close> writes is), \<^verbatim>\<open>uncache\<close> raises the
  \<^verbatim>\<open>KeyError\<close> of the deletion, and the stores are as before.
\<close>

theorem uncache_KeyError:
  assumes "getattribute self ''ip'' = Inr (Str r)"
    and "cache_path self = Inr path"
    and "shelves w path = Some db"
    and "r \<notin> set (map fst db)"
    and "truthy (shelf_get db ''ip'')"
  shows "fst (uncache self w) = Inl (KeyError r)
       \<and> shelves (snd (uncache self w)) = shelves w"
proof -
  have op: "shelve_open path (CHR ''w'') w = (Inr db, w\<lparr>trace := trace w @ [ShelveOpen path (CHR ''w'')]\<rparr>)"
    using assms(3) by (simp add: shelve_open_def Let_def)
  have del: "shelf_delitem db (Str r) = Inl (KeyError r)"
    using assms(4) by (simp add: shelf_delitem_def)
  have "(shelves w)(path \<mapsto> db) = shelves w"
    using assms(3) by (simp add: fun_upd_idem)
  with assms(1,2,5) op del show ?thesis
    by (simp add: uncache_def Let_def shelve_close_def)
qed

theorem uncache_KeyError_witness:
  "getattribute record_1234 ''ip'' = Inr (Str ''1.2.3.4'')
   \<and> cache_path record_1234 = Inr ''/lib/cache''
   \<and> shelves (mk_world None (Some [(''ip'', Dict record_1234)]) None) ''/lib/cache''
       = Some [(''ip'', Dict record_1234)]
   \<and> ''1.2.3.4'' \<notin> set (map fst [(''ip'', Dict record_1234)])
   \<and> truthy (shelf_get [(''ip'', Dict record_1234)] ''ip'')
   \<and> fst (uncache record_1234 (mk_world None (Some [(''ip'', Dict record_1234)]) None))
       = Inl (KeyError ''1.2.3.4'')"
proof -
  let ?db = "[(''ip'', Dict record_1234)]"
  let ?w = "mk_world None (Some ?db) None"
  have ip: "getattribute record_1234 ''ip'' = Inr (Str ''1.2.3.4'')"
    by code_simp
  have path: "cache_path record_1234 = Inr ''/lib/cache''"
    by code_simp
  have store: "shelves ?w ''/lib/cache'' = Some ?db"
    by (simp add: mk_world_sel)
  have absent: "''1.2.3.4'' \<notin> set (map fst ?db)"
    by simp
  have true: "truthy (shelf_get ?db ''ip'')"
    by code_simp
  from uncache_KeyError [OF ip path store absent true] ip path store absent true
  show ?thesis by simp
qed

text \<open>
  C10 as stated fails when the value under \<^verbatim>\<open>'ip'\<close> is false in Python's sense: the
  store has an entry under \<^verbatim>\<open>'ip'\<close> and none under the instance's address, and
  \<^verbatim>\<open>uncache\<close> returns without an exception.
\<close>

theorem uncache_falsy_entry:
  "getattribute record_1234 ''ip'' = Inr (Str ''1.2.3.4'')
   \<and> ''1.2.3.4'' \<notin> set (map fst [(''ip'', Dict [])])
   \<and> ''ip'' \<in> set (map fst [(''ip'', Dict [])])
   \<and> fst (uncache record_1234 (mk_world None (Some [(''ip'', Dict [])]) None)) = Inr ()"
  by (intro conjI; code_simp)

text \<open>
  C7, evaluated: an instance for 1.2.3.4 is stored with \<^verbatim>\<open>cache\<close> and then removed with
  \<^verbatim>\<open>uncache\<close>. Both calls return normally, and the store still has its entry under
  \<^verbatim>\<open>1.2.3.4\<close>: \<^verbatim>\<open>uncache\<close> looks for the literal key \<^verbatim>\<open>'ip'\<close>, finds nothing and
  deletes nothing.
\<close>

theorem uncache_after_cache:
  "getattribute record_1234 ''ip'' = Inr (Str ''1.2.3.4'')
   \<and> fst (cache record_1234 (mk_world None (Some []) None)) = Inr ()
   \<and> fst (uncache record_1234 (snd (cache record_1234 (mk_world None (Some []) None)))) = Inr ()
   \<and> map fst (store_entries
        (snd (uncache record_1234 (snd (cache record_1234 (mk_world None (Some []) None)))))
        ''/lib/cache'') = [''1.2.3.4'']"
  by (intro conjI; code_simp)

subsection \<open>The round trip through the cache\<close>

text \<open>
  C1, evaluated: an instance for 1.2.3.4 in Madrid is stored with \<^verbatim>\<open>cache\<close>, then
  \<^verbatim>\<open>get\<close> is called for that address with the cache enabled. The call hits the cache and
  makes no HTTP request (the log has the two openings of the store and nothing else), but the
  instance it returns comes from \<^verbatim>\<open>cls(ip)\<close>, the constructor applied to the address: its
  \<^verbatim>\<open>ip\<close> and its \<^verbatim>\<open>city\<close> are empty strings, not the cached values.
\<close>

theorem get_after_cache:
  "getattribute record_1234 ''ip'' = Inr (Str ''1.2.3.4'')
   \<and> getattribute record_1234 ''city'' = Inr (Str ''Madrid'')
   \<and> fst (cache record_1234 (mk_world (Some ''K'') (Some []) None)) = Inr ()
   \<and> result_attr (fst (get (Some ''1.2.3.4'') None None True
        (snd (cache record_1234 (mk_world (Some ''K'') (Some []) None))))) ''ip'' = Inr (Str '''')
   \<and> result_attr (fst (get (Some ''1.2.3.4'') None None True
        (snd (cache record_1234 (mk_world (Some ''K'') (Some []) None))))) ''city'' = Inr (Str '''')
   \<and> trace (snd (get (Some ''1.2.3.4'') None None True
        (snd (cache record_1234 (mk_world (Some ''K'') (Some []) None)))))
       = [ShelveOpen ''/lib/cache'' (CHR ''w''), ShelveOpen ''/lib/cache'' (CHR ''c'')]"
  by (intro conjI; code_simp)

subsection \<open>The format of an address\<close>

text \<open>The examples of C4: a usual address passes, a segment of 999 and a missing segment do not.\<close>

lemma checkipformat_examples:
  "checkipformat ''192.168.1.1'' = Inr ()"
  "checkipformat ''999.1.1.1'' = Inl (IncorrectIpFormat ''ipv4'')"
  "checkipformat ''1.2.3'' = Inl (IncorrectIpFormat ''ipv4'')"
  by code_simp+

text \<open>
  The addresses that \<^verbatim>\<open>checkipformat\<close> accepts are the dotted quads of the specification
  and the same followed by one newline; on every other string it raises
  \<^verbatim>\<open>IncorrectIpFormat('ipv4')\<close>, and no other exception escapes.
\<close>

lemma checkipformat_accepts_iff:
  "checkipformat ip = Inr () \<longleftrightarrow>
     spec_dotted_quad ip \<or> (\<exists>s. ip = s @ ''\<newline>'' \<and> spec_dotted_quad s)"
proof
  assume ok: "checkipformat ip = Inr ()"
  then have "re_match ipv4 ip"
    by (auto simp: checkipformat_def split: if_splits)
  then obtain a b c d rest where ip: "ip = a @ ''.'' @ b @ ''.'' @ c @ ''.'' @ d @ rest"
    and segs: "spec_segment a" "spec_segment b" "spec_segment c" "spec_segment d"
    and rest: "rest = [] \<or> rest = ''\<newline>''"
    unfolding re_match_ipv4 by (elim exE conjE)
  from ok checkipformat_quad [OF segs rest]
  have small: "decimal a < 256 \<and> decimal b < 256 \<and> decimal c < 256 \<and> decimal d < 256"
    unfolding ip by (simp split: if_splits)
  with segs have quad: "spec_dotted_quad (a @ ''.'' @ b @ ''.'' @ c @ ''.'' @ d)"
    unfolding spec_dotted_quad_iff by blast
  from rest show "spec_dotted_quad ip \<or> (\<exists>s. ip = s @ ''\<newline>'' \<and> spec_dotted_quad s)"
  proof
    assume "rest = []"
    with ip quad show ?thesis by simp
  next
    assume "rest = ''\<newline>''"
    with ip have "ip = (a @ ''.'' @ b @ ''.'' @ c @ ''.'' @ d) @ ''\<newline>''" by simp
    with quad show ?thesis by blast
  qed
next
  assume "spec_dotted_quad ip \<or> (\<exists>s. ip = s @ ''\<newline>'' \<and> spec_dotted_quad s)"
  then obtain s rest where ip: "ip = s @ rest" and rest: "rest = [] \<or> rest = ''\<newline>''"
    and quad: "spec_dotted_quad s"
    by (elim disjE exE conjE) (rule that [of ip "[]"], simp_all)
  from quad obtain a b c d where s: "s = a @ ''.'' @ b @ ''.'' @ c @ ''.'' @ d"
    and segs: "spec_segment a" "spec_segment b" "spec_segment c" "spec_segment d"
    and small: "decimal a < 256" "decimal b < 256" "decimal c < 256" "decimal d < 256"
    unfolding spec_dotted_quad_iff by (elim exE conjE)
  from checkipformat_quad [OF segs rest] small show "checkipformat ip = Inr ()"
    unfolding ip s by simp
qed

lemma checkipformat_rejects:
  "checkipformat ip \<noteq> Inr () \<Longrightarrow> checkipformat ip = Inl (IncorrectIpFormat ''ipv4'')"
proof (cases "re_match ipv4 ip")
  case False
  then show ?thesis by (simp add: checkipformat_def)
next
  case True
  assume no: "checkipformat ip \<noteq> Inr ()"
  from True obtain a b c d rest where ip: "ip = a @ ''.'' @ b @ ''.'' @ c @ ''.'' @ d @ rest"
    and segs: "spec_segment a" "spec_segment b" "spec_segment c" "spec_segment d"
    and rest: "rest = [] \<or> rest = ''\<newline>''"
    unfolding re_match_ipv4 by (elim exE conjE)
  from no checkipformat_quad [OF segs rest] show ?thesis
    unfolding ip by (simp split: if_splits)
qed

text \<open>
  C4, evaluated: the address 1.2.3.4 followed by a newline is accepted, although its last
  segment is not one to three digits. The \<^verbatim>\<open>$\<close> of the pattern also matches before a
  final newline, and \<^verbatim>\<open>int\<close> reads \<^verbatim>\<open>4\<close> from the last chunk.
\<close>

theorem checkipformat_trailing_newline:
  "checkipformat ''1.2.3.4\<newline>'' = Inr ()"
  by code_simp

end
